theory Spec2Isabelle
  imports Complex_Main "HOL-Library.Char_ord" "HOL-Library.List_Lexorder" "HOL-Library.Multiset"
begin

section \<open>Data model of the sales dashboard (sales\_analysis.py)\<close>

text \<open>
  One row of \<open>df_sales\<close>, the frame returned by \<open>load_sales_data\<close>. Only the columns
  read by the filters, the KPIs, the group-by pipelines and the Pareto analysis are kept.
  The fact columns (\<open>ID_TRANSACAO\<close>, \<open>DATA\<close>, \<open>QUANTIDADE_VENDIDA\<close>, \<open>TOTAL_VENDA\<close>)
  are always present. The dimension columns come from LEFT JOINs, so each of them may be
  null: \<open>None\<close> is the null of a join miss.

  \<open>DATA\<close> is a point on the time line (the integer behind a pandas timestamp), and
  \<open>pd.to_datetime\<close> of a bound of the date widget is the same kind of integer.
  \<open>TOTAL_VENDA\<close> is an exact rational: sums and quotients are the mathematical ones, the
  rounding of binary floating point is not modelled. The special values that float
  division produces instead of raising are modelled (type \<open>fval\<close> below).
\<close>

record row =
  ID_TRANSACAO :: int
  DATA :: int
  QUANTIDADE_VENDIDA :: int
  TOTAL_VENDA :: rat
  STORE_CITY :: "string option"
  PRODUCT_NAME :: "string option"
  CATEGORY :: "string option"
  SALESPERSON_NAME :: "string option"

type_synonym dataframe = "row list"

text \<open>
  The state of the sidebar widgets. A multiselect returns the list of chosen options, and
  its options are the values of \<open>unique()\<close> of the column, so a chosen value may be the
  null. \<open>st.date_input\<close> called with a pair returns a tuple of zero, one or two dates.
\<close>

record selection =
  store_filter :: "string option list"
  product_filter :: "string option list"
  category_filter :: "string option list"
  salesperson_filter :: "string option list"
  date_range :: "int list"

text \<open>
  The result of a float division of two exact values: numpy returns \<open>nan\<close> for \<open>0/0\<close> and
  a signed infinity for \<open>x/0\<close>; it does not raise.
\<close>

datatype fval = Fin rat | PosInf | NegInf | NaN

datatype error = ZeroDivisionError

section \<open>Filter engine (lines 115-129)\<close>

text \<open>\<open>Series.isin(values)\<close>, for one cell: membership; a null cell matches a null value.\<close>

definition isin :: "'a \<Rightarrow> 'a list \<Rightarrow> bool" where
  "isin v vs = (v \<in> set vs)"

text \<open>
  The five \<open>if\<close> statements in sequence. A Python list is true when it is not empty;
  indexing the frame with a boolean mask keeps the rows where the mask holds, in order.
\<close>

definition df_filtered :: "selection \<Rightarrow> dataframe \<Rightarrow> dataframe" where
  "df_filtered sel df_sales =
     (let df0 = df_sales;
          df1 = (if store_filter sel \<noteq> []
                 then filter (\<lambda>r. isin (STORE_CITY r) (store_filter sel)) df0 else df0);
          df2 = (if product_filter sel \<noteq> []
                 then filter (\<lambda>r. isin (PRODUCT_NAME r) (product_filter sel)) df1 else df1);
          df3 = (if category_filter sel \<noteq> []
                 then filter (\<lambda>r. isin (CATEGORY r) (category_filter sel)) df2 else df2);
          df4 = (if salesperson_filter sel \<noteq> []
                 then filter (\<lambda>r. isin (SALESPERSON_NAME r) (salesperson_filter sel)) df3
                 else df3);
          df5 = (if length (date_range sel) = 2
                 then filter (\<lambda>r. date_range sel ! 0 \<le> DATA r \<and> DATA r \<le> date_range sel ! 1) df4
                 else df4)
      in df5)"

text \<open>
  \<open>min_date\<close> and \<open>max_date\<close> (lines 102-103), the defaults of the date widget. On an
  empty column pandas returns \<open>NaT\<close>, here \<open>None\<close>.
\<close>

definition min_date :: "dataframe \<Rightarrow> int option" where
  "min_date df = (case df of [] \<Rightarrow> None | r # rs \<Rightarrow> Some (fold min (map DATA rs) (DATA r)))"

definition max_date :: "dataframe \<Rightarrow> int option" where
  "max_date df = (case df of [] \<Rightarrow> None | r # rs \<Rightarrow> Some (fold max (map DATA rs) (DATA r)))"

text \<open>\<open>Series.unique()\<close>: the distinct values of a column, nulls included, by first appearance.\<close>

definition unique :: "'a list \<Rightarrow> 'a list" where
  "unique xs = rev (remdups (rev xs))"

section \<open>KPIs (lines 140-143)\<close>

text \<open>
  \<open>Series.sum()\<close>. The model adds the amounts exactly; line 140 adds them as float64, so
  the code's value is this one up to the rounding of its additions. No statement below
  equates the total revenue with a sum that the code adds in another order.
\<close>

definition total_revenue :: "dataframe \<Rightarrow> rat" where
  "total_revenue df = sum_list (map TOTAL_VENDA df)"

definition total_transactions :: "dataframe \<Rightarrow> nat" where
  "total_transactions df = length df"

text \<open>\<open>Series.mean()\<close>: the mean of an empty column is \<open>nan\<close>, nothing is raised.\<close>

definition mean :: "rat list \<Rightarrow> fval" where
  "mean xs = (if xs = [] then NaN else Fin (sum_list xs / of_nat (length xs)))"

definition avg_ticket :: "dataframe \<Rightarrow> fval" where
  "avg_ticket df = mean (map TOTAL_VENDA df)"

definition total_quantity :: "dataframe \<Rightarrow> int" where
  "total_quantity df = sum_list (map QUANTIDADE_VENDIDA df)"

section \<open>Group-by pipelines\<close>

text \<open>
  \<open>df.groupby(key)['TOTAL_VENDA'].sum()\<close> with the defaults of pandas (\<open>sort=True\<close>,
  \<open>dropna=True\<close>): one entry per distinct non-null key, the keys ascending, each with the
  sum of \<open>TOTAL_VENDA\<close> over the rows of that key. Rows whose key is null are in no group.
  \<open>reset_index()\<close> turns the series into a two-column frame; a list of pairs is both.
  Each group sum is the exact sum of the group's amounts; pandas adds them as float64, so
  its value is this one up to rounding. Which rows belong to which group, the keys and
  their order do not depend on rounding.
\<close>

definition groupby_sum :: "(row \<Rightarrow> 'k::linorder option) \<Rightarrow> dataframe \<Rightarrow> ('k option \<times> rat) list" where
  "groupby_sum key df =
     map (\<lambda>k. (Some k, sum_list (map TOTAL_VENDA (filter (\<lambda>r. key r = Some k) df))))
         (sort (remdups (List.map_filter key df)))"

text \<open>
  \<open>sort_values(ascending=False)\<close> on the summed amount. The order among equal amounts is
  whatever the sort leaves; the model keeps the incoming order among them.
\<close>

definition sort_values_desc :: "('k \<times> rat) list \<Rightarrow> ('k \<times> rat) list" where
  "sort_values_desc xs = sort_key (\<lambda>p. - snd p) xs"

definition head :: "nat \<Rightarrow> 'a list \<Rightarrow> 'a list" where
  "head n xs = take n xs"

text \<open>Line 171: the by-product aggregation; line 172: its ranked top 10.\<close>

definition product_sales_agg :: "dataframe \<Rightarrow> (string option \<times> rat) list" where
  "product_sales_agg df = groupby_sum PRODUCT_NAME df"

definition product_sales :: "dataframe \<Rightarrow> (string option \<times> rat) list" where
  "product_sales df = head 10 (sort_values_desc (product_sales_agg df))"

text \<open>Line 198.\<close>

definition category_sales :: "dataframe \<Rightarrow> (string option \<times> rat) list" where
  "category_sales df = groupby_sum CATEGORY df"

text \<open>Lines 269-275 and 296-302.\<close>

definition top_salespersons :: "dataframe \<Rightarrow> (string option \<times> rat) list" where
  "top_salespersons df = head 10 (sort_values_desc (groupby_sum SALESPERSON_NAME df))"

definition top_stores :: "dataframe \<Rightarrow> (string option \<times> rat) list" where
  "top_stores df = head 10 (sort_values_desc (groupby_sum STORE_CITY df))"

section \<open>Pareto analysis (lines 390-400, 430-431)\<close>

record pareto_row =
  P_PRODUCT_NAME :: "string option"
  P_TOTAL_VENDA :: rat
  CUMULATIVE_SALES :: rat
  CUMULATIVE_PERCENTAGE :: fval
  PRODUCT_NUMBER :: nat

text \<open>\<open>Series.cumsum()\<close>: the running sums.\<close>

fun cumsum_from :: "rat \<Rightarrow> rat list \<Rightarrow> rat list" where
  "cumsum_from acc [] = []"
| "cumsum_from acc (x # xs) = (acc + x) # cumsum_from (acc + x) xs"

definition cumsum :: "rat list \<Rightarrow> rat list" where
  "cumsum xs = cumsum_from 0 xs"

text \<open>Float division and multiplication by a positive constant, with the special values.\<close>

definition fdiv :: "rat \<Rightarrow> rat \<Rightarrow> fval" where
  "fdiv a b = (if b = 0 then (if a = 0 then NaN else if 0 < a then PosInf else NegInf)
               else Fin (a / b))"

fun fmul100 :: "fval \<Rightarrow> fval" where
  "fmul100 (Fin x) = Fin (x * 100)"
| "fmul100 PosInf = PosInf"
| "fmul100 NegInf = NegInf"
| "fmul100 NaN = NaN"

text \<open>Float comparison \<open>x <= y\<close>: false as soon as one side is \<open>nan\<close>.\<close>

fun fle :: "fval \<Rightarrow> fval \<Rightarrow> bool" where
  "fle NaN _ = False"
| "fle _ NaN = False"
| "fle NegInf _ = True"
| "fle _ PosInf = True"
| "fle (Fin x) (Fin y) = (x \<le> y)"
| "fle PosInf _ = False"
| "fle _ NegInf = False"

definition pareto_products :: "dataframe \<Rightarrow> pareto_row list" where
  "pareto_products df =
     (let ranked = sort_values_desc (groupby_sum PRODUCT_NAME df);
          sales = map snd ranked;
          cum = cumsum sales;
          total = sum_list sales
      in map (\<lambda>i. \<lparr>P_PRODUCT_NAME = fst (ranked ! i),
                   P_TOTAL_VENDA = snd (ranked ! i),
                   CUMULATIVE_SALES = cum ! i,
                   CUMULATIVE_PERCENTAGE = fmul100 (fdiv (cum ! i) total),
                   PRODUCT_NUMBER = i + 1\<rparr>)
             [0 ..< length ranked])"

text \<open>Line 430: the rows of the whole frame whose cumulative percentage is at most 80.\<close>

definition products_80 :: "dataframe \<Rightarrow> pareto_row list" where
  "products_80 df = filter (\<lambda>p. fle (CUMULATIVE_PERCENTAGE p) (Fin 80)) (pareto_products df)"

text \<open>
  Line 431: the two numbers of the insight message. \<open>len(a)/len(b)\<close> is Python's division
  of integers, which raises \<open>ZeroDivisionError\<close> when \<open>len(b)\<close> is zero.
\<close>

definition insight :: "dataframe \<Rightarrow> error + (nat \<times> rat)" where
  "insight df =
     (let n80 = length (products_80 df); n = length (pareto_products df)
      in if n = 0 then Inl ZeroDivisionError
         else Inr (n80, of_nat n80 / of_nat n * 100))"

text \<open>
  The count of section 4.3 of the specification, in its words: the number of leading ranks
  whose cumulative percentage is at most 80.
\<close>

definition count_at_80_spec :: "dataframe \<Rightarrow> nat" where
  "count_at_80_spec df =
     length (takeWhile (\<lambda>p. fle (CUMULATIVE_PERCENTAGE p) (Fin 80)) (pareto_products df))"

section \<open>Example inputs\<close>

definition sale ::
  "int \<Rightarrow> int \<Rightarrow> rat \<Rightarrow> string option \<Rightarrow> string option \<Rightarrow> string option \<Rightarrow> string option \<Rightarrow> row" where
  "sale i d amount city product cat seller =
     \<lparr>ID_TRANSACAO = i, DATA = d, QUANTIDADE_VENDIDA = 1, TOTAL_VENDA = amount,
      STORE_CITY = city, PRODUCT_NAME = product, CATEGORY = cat, SALESPERSON_NAME = seller\<rparr>"

text \<open>Four sales of three products: P1 sums to 600, P2 to 300, P3 to 100.\<close>

definition sales_example :: dataframe where
  "sales_example =
     [sale 1 10 250 (Some ''Recife'') (Some ''P1'') (Some ''Toys'') (Some ''Ana''),
      sale 2 12 300 (Some ''Natal'') (Some ''P2'') (Some ''Books'') (Some ''Bia''),
      sale 3 15 100 (Some ''Recife'') (Some ''P3'') (Some ''Toys'') (Some ''Ana''),
      sale 4 20 350 (Some ''Natal'') (Some ''P1'') (Some ''Toys'') (Some ''Caio'')]"

text \<open>One sale per product: 600, 300 and 100.\<close>

definition three_products :: dataframe where
  "three_products =
     [sale 1 1 600 (Some ''Recife'') (Some ''P1'') (Some ''Toys'') (Some ''Ana''),
      sale 2 2 300 (Some ''Recife'') (Some ''P2'') (Some ''Toys'') (Some ''Ana''),
      sale 3 3 100 (Some ''Recife'') (Some ''P3'') (Some ''Toys'') (Some ''Ana'')]"

text \<open>Join misses: a frame whose products are all null, one whose categories are all null,
  and one where null and named categories meet.\<close>

definition null_product_sales :: dataframe where
  "null_product_sales = [sale 1 1 5 (Some ''Recife'') None (Some ''Toys'') (Some ''Ana'')]"

definition null_category_sales :: dataframe where
  "null_category_sales =
     [sale 1 1 40 (Some ''Recife'') (Some ''P1'') None (Some ''Ana''),
      sale 2 2 5 (Some ''Recife'') (Some ''P2'') None (Some ''Ana'')]"

definition unmatched_product_sale :: dataframe where
  "unmatched_product_sale = [sale 7 3 45 (Some ''Natal'') (Some ''P9'') None (Some ''Bia'')]"

definition mixed_category_sales :: dataframe where
  "mixed_category_sales =
     [sale 1 1 40 (Some ''Recife'') (Some ''P1'') None (Some ''Ana''),
      sale 2 2 60 (Some ''Recife'') (Some ''P2'') (Some ''Toys'') (Some ''Ana''),
      sale 3 3 5 (Some ''Recife'') (Some ''P1'') None (Some ''Ana'')]"

text \<open>Eleven products \<open>a\<close>, \<open>aa\<close>, \<dots> with the amounts 1 to 11, one seller, one city.\<close>

definition eleven_products :: dataframe where
  "eleven_products =
     map (\<lambda>n. sale (int n) (int n) (of_nat n) (Some ''Recife'') (Some (replicate n CHR ''a''))
                 (Some ''Toys'') (Some ''Ana''))
         [1 ..< 12]"

text \<open>Widget states.\<close>

definition sel_city_product_dates :: selection where
  "sel_city_product_dates =
     \<lparr>store_filter = [Some ''Natal'', Some ''Recife''],
      product_filter = [Some ''P1'', Some ''P2''],
      category_filter = [], salesperson_filter = [], date_range = [10, 15]\<rparr>"

definition sel_inverted_dates :: selection where
  "sel_inverted_dates =
     \<lparr>store_filter = [], product_filter = [], category_filter = [], salesperson_filter = [],
      date_range = [15, 10]\<rparr>"

definition sel_nothing_chosen :: selection where
  "sel_nothing_chosen =
     \<lparr>store_filter = [], product_filter = [], category_filter = [], salesperson_filter = [],
      date_range = [10, 20]\<rparr>"

definition sel_everything_chosen :: selection where
  "sel_everything_chosen =
     \<lparr>store_filter = [Some ''Natal'', Some ''Recife''],
      product_filter = [Some ''P1'', Some ''P2'', Some ''P3''],
      category_filter = [Some ''Books'', Some ''Toys''],
      salesperson_filter = [Some ''Ana'', Some ''Bia'', Some ''Caio''],
      date_range = [10, 20]\<rparr>"

section \<open>The filter engine\<close>

lemma df_filtered_conv:
  "df_filtered sel df = filter (\<lambda>r.
     (store_filter sel \<noteq> [] \<longrightarrow> STORE_CITY r \<in> set (store_filter sel)) \<and>
     (product_filter sel \<noteq> [] \<longrightarrow> PRODUCT_NAME r \<in> set (product_filter sel)) \<and>
     (category_filter sel \<noteq> [] \<longrightarrow> CATEGORY r \<in> set (category_filter sel)) \<and>
     (salesperson_filter sel \<noteq> [] \<longrightarrow> SALESPERSON_NAME r \<in> set (salesperson_filter sel)) \<and>
     (length (date_range sel) = 2 \<longrightarrow>
        date_range sel ! 0 \<le> DATA r \<and> DATA r \<le> date_range sel ! 1)) df"
  unfolding df_filtered_def Let_def isin_def
  by (auto intro!: filter_cong)

lemma mask_all: "(\<And>r. r \<in> set df \<Longrightarrow> P r) \<Longrightarrow> filter P df = df"
  by (induction df) auto

lemma fold_min_le: "fold min xs (a::int) \<le> a"
proof (induction xs arbitrary: a)
  case Nil
  then show ?case by simp
next
  case (Cons y ys)
  have "fold min ys (min y a) \<le> min y a" by (rule Cons.IH)
  then show ?case by simp
qed

lemma fold_min_le_mem: "x \<in> set xs \<Longrightarrow> fold min xs (a::int) \<le> x"
proof (induction xs arbitrary: a)
  case Nil
  then show ?case by simp
next
  case (Cons y ys)
  show ?case
  proof (cases "x = y")
    case True
    have "fold min ys (min y a) \<le> min y a" by (rule fold_min_le)
    then show ?thesis using True by simp
  next
    case False
    then show ?thesis using Cons by simp
  qed
qed

lemma fold_max_ge: "a \<le> fold max xs (a::int)"
proof (induction xs arbitrary: a)
  case Nil
  then show ?case by simp
next
  case (Cons y ys)
  have "max y a \<le> fold max ys (max y a)" by (rule Cons.IH)
  then show ?case by simp
qed

lemma fold_max_ge_mem: "x \<in> set xs \<Longrightarrow> x \<le> fold max xs (a::int)"
proof (induction xs arbitrary: a)
  case Nil
  then show ?case by simp
next
  case (Cons y ys)
  show ?case
  proof (cases "x = y")
    case True
    have "max y a \<le> fold max ys (max y a)" by (rule fold_max_ge)
    then show ?thesis using True by simp
  next
    case False
    then show ?thesis using Cons by simp
  qed
qed

lemma min_date_le: "min_date df = Some lo \<Longrightarrow> r \<in> set df \<Longrightarrow> lo \<le> DATA r"
  by (cases df) (auto simp: min_date_def fold_min_le fold_min_le_mem)

lemma max_date_ge: "max_date df = Some hi \<Longrightarrow> r \<in> set df \<Longrightarrow> DATA r \<le> hi"
  by (cases df) (auto simp: max_date_def fold_max_ge fold_max_ge_mem)

lemma set_unique: "set (unique xs) = set xs"
  by (simp add: unique_def)

text \<open>
  Claim C3. Whatever the frame and the widget state, the filter engine returns exactly the
  rows, in their order, that satisfy every active predicate: for each of store city,
  product, category and salesperson with a non-empty selection the row's value is one of
  the selected values, and when the date range has its two bounds the row's date lies in
  the closed interval between them. An empty selection, or a date range without two
  bounds, constrains nothing.
\<close>

theorem df_filtered_keeps_exactly:
  "df_filtered sel df = filter (\<lambda>r.
     (store_filter sel \<noteq> [] \<longrightarrow> STORE_CITY r \<in> set (store_filter sel)) \<and>
     (product_filter sel \<noteq> [] \<longrightarrow> PRODUCT_NAME r \<in> set (product_filter sel)) \<and>
     (category_filter sel \<noteq> [] \<longrightarrow> CATEGORY r \<in> set (category_filter sel)) \<and>
     (salesperson_filter sel \<noteq> [] \<longrightarrow> SALESPERSON_NAME r \<in> set (salesperson_filter sel)) \<and>
     (length (date_range sel) = 2 \<longrightarrow>
        date_range sel ! 0 \<le> DATA r \<and> DATA r \<le> date_range sel ! 1)) df"
  by (rule df_filtered_conv)

theorem df_filtered_keeps_exactly_witness:
  "df_filtered sel_city_product_dates sales_example =
     [sale 1 10 250 (Some ''Recife'') (Some ''P1'') (Some ''Toys'') (Some ''Ana''),
      sale 2 12 300 (Some ''Natal'') (Some ''P2'') (Some ''Books'') (Some ''Bia'')]"
  by (simp only: df_filtered_keeps_exactly)
     (simp add: sel_city_product_dates_def sales_example_def sale_def)

text \<open>
  Claim C8. When the date range has two bounds and the start lies strictly after the end,
  the filter engine returns the empty frame. This holds whatever the categorical
  selections are, in particular when all four are empty; the function has no failing
  branch.
\<close>

theorem inverted_date_range_empty:
  assumes "date_range sel = [start, end]" and "end < start"
  shows "df_filtered sel df = []"
  using assms by (auto simp: df_filtered_conv filter_empty_conv)

theorem inverted_date_range_empty_witness:
  "date_range sel_inverted_dates = [15, 10] \<and> (10::int) < 15 \<and>
   store_filter sel_inverted_dates = [] \<and> product_filter sel_inverted_dates = [] \<and>
   category_filter sel_inverted_dates = [] \<and> salesperson_filter sel_inverted_dates = [] \<and>
   df_filtered sel_inverted_dates sales_example = []"
proof -
  have range: "date_range sel_inverted_dates = [15, 10]"
    by (simp add: sel_inverted_dates_def)
  have "df_filtered sel_inverted_dates sales_example = []"
    by (rule inverted_date_range_empty [OF range]) simp
  then show ?thesis by (simp add: sel_inverted_dates_def)
qed

text \<open>
  Claim C9. Take any frame and a widget state whose date range is the frame's
  \<open>[min_date, max_date]\<close> (an empty frame has neither, and then any date range will do).
  If every categorical selection is empty, or is the full list of distinct values of its
  column (in any order), or any mix of the two, the filter engine returns the frame
  itself: the same rows in the same order.
\<close>

theorem full_selection_returns_dataset:
  assumes dr: "case (min_date df, max_date df) of
                 (Some lo, Some hi) \<Rightarrow> date_range sel = [lo, hi] | _ \<Rightarrow> True"
    and st: "store_filter sel = [] \<or> set (store_filter sel) = set (unique (map STORE_CITY df))"
    and pr: "product_filter sel = [] \<or>
             set (product_filter sel) = set (unique (map PRODUCT_NAME df))"
    and ca: "category_filter sel = [] \<or> set (category_filter sel) = set (unique (map CATEGORY df))"
    and sa: "salesperson_filter sel = [] \<or>
             set (salesperson_filter sel) = set (unique (map SALESPERSON_NAME df))"
  shows "df_filtered sel df = df"
proof (cases df)
  case Nil
  then show ?thesis by (simp add: df_filtered_def Let_def)
next
  case (Cons r0 rs)
  then obtain lo hi where lo: "min_date df = Some lo" and hi: "max_date df = Some hi"
    by (simp add: min_date_def max_date_def)
  with dr have range: "date_range sel = [lo, hi]" by simp
  have "filter (\<lambda>r.
     (store_filter sel \<noteq> [] \<longrightarrow> STORE_CITY r \<in> set (store_filter sel)) \<and>
     (product_filter sel \<noteq> [] \<longrightarrow> PRODUCT_NAME r \<in> set (product_filter sel)) \<and>
     (category_filter sel \<noteq> [] \<longrightarrow> CATEGORY r \<in> set (category_filter sel)) \<and>
     (salesperson_filter sel \<noteq> [] \<longrightarrow> SALESPERSON_NAME r \<in> set (salesperson_filter sel)) \<and>
     (length (date_range sel) = 2 \<longrightarrow>
        date_range sel ! 0 \<le> DATA r \<and> DATA r \<le> date_range sel ! 1)) df = df"
  proof (rule mask_all, intro conjI impI)
    fix r assume r: "r \<in> set df"
    show "date_range sel ! 0 \<le> DATA r" using range min_date_le [OF lo r] by simp
    show "DATA r \<le> date_range sel ! 1" using range max_date_ge [OF hi r] by simp
    show "STORE_CITY r \<in> set (store_filter sel)" if "store_filter sel \<noteq> []"
      using that st r by (simp add: set_unique)
    show "PRODUCT_NAME r \<in> set (product_filter sel)" if "product_filter sel \<noteq> []"
      using that pr r by (simp add: set_unique)
    show "CATEGORY r \<in> set (category_filter sel)" if "category_filter sel \<noteq> []"
      using that ca r by (simp add: set_unique)
    show "SALESPERSON_NAME r \<in> set (salesperson_filter sel)" if "salesperson_filter sel \<noteq> []"
      using that sa r by (simp add: set_unique)
  qed
  then show ?thesis by (simp only: df_filtered_conv)
qed

theorem full_selection_returns_dataset_witness:
  "min_date sales_example = Some 10 \<and> max_date sales_example = Some 20 \<and>
   date_range sel_nothing_chosen = [10, 20] \<and> date_range sel_everything_chosen = [10, 20] \<and>
   store_filter sel_nothing_chosen = [] \<and>
   set (store_filter sel_everything_chosen) = set (unique (map STORE_CITY sales_example)) \<and>
   df_filtered sel_nothing_chosen sales_example = sales_example \<and>
   df_filtered sel_everything_chosen sales_example = sales_example"
proof -
  have lo: "min_date sales_example = Some 10" and hi: "max_date sales_example = Some 20"
    by (simp_all add: min_date_def max_date_def sales_example_def sale_def)
  have none: "store_filter sel_nothing_chosen = []" "product_filter sel_nothing_chosen = []"
    "category_filter sel_nothing_chosen = []" "salesperson_filter sel_nothing_chosen = []"
    "date_range sel_nothing_chosen = [10, 20]"
    by (simp_all add: sel_nothing_chosen_def)
  have every: "set (store_filter sel_everything_chosen) = set (unique (map STORE_CITY sales_example))"
    "set (product_filter sel_everything_chosen) = set (unique (map PRODUCT_NAME sales_example))"
    "set (category_filter sel_everything_chosen) = set (unique (map CATEGORY sales_example))"
    "set (salesperson_filter sel_everything_chosen) =
       set (unique (map SALESPERSON_NAME sales_example))"
    by (auto simp: sel_everything_chosen_def sales_example_def sale_def unique_def)
  have range: "date_range sel_everything_chosen = [10, 20]"
    by (simp add: sel_everything_chosen_def)
  have "df_filtered sel_nothing_chosen sales_example = sales_example"
    by (rule full_selection_returns_dataset) (simp_all add: lo hi none)
  moreover have "df_filtered sel_everything_chosen sales_example = sales_example"
    by (rule full_selection_returns_dataset) (simp_all add: lo hi range every)
  ultimately show ?thesis using lo hi none(1,5) range every(1) by simp
qed

section \<open>The group-by pipelines\<close>

lemma group_keys_set:
  "set (sort (remdups (List.map_filter key df))) = {k. \<exists>r\<in>set df. key r = Some k}"
  by (force simp: List.map_filter_def)

lemma group_keys_distinct: "distinct (sort (remdups (List.map_filter key df)))"
  by simp

lemma groupby_sum_keys:
  "map fst (groupby_sum key df) = map Some (sort (remdups (List.map_filter key df)))"
  by (simp add: groupby_sum_def comp_def)

lemma groupby_sum_fst_set:
  "fst ` set (groupby_sum key df) = {c \<in> key ` set df. c \<noteq> None}"
proof -
  have "fst ` set (groupby_sum key df) = set (map fst (groupby_sum key df))" by simp
  also have "\<dots> = Some ` {k. \<exists>r\<in>set df. key r = Some k}"
    by (simp only: groupby_sum_keys set_map group_keys_set)
  also have "\<dots> = {c \<in> key ` set df. c \<noteq> None}" by force
  finally show ?thesis .
qed

lemma groupby_sum_distinct_keys: "distinct (map fst (groupby_sum key df))"
  by (simp only: groupby_sum_keys) (simp add: distinct_map)

lemma groupby_sum_entry:
  "(c, v) \<in> set (groupby_sum key df) \<Longrightarrow>
     c \<noteq> None \<and> v = sum_list (map TOTAL_VENDA (filter (\<lambda>r. key r = c) df))"
  by (auto simp: groupby_sum_def)

lemma groupby_sum_empty_iff: "groupby_sum key df = [] \<longleftrightarrow> (\<forall>r\<in>set df. key r = None)"
proof -
  have "groupby_sum key df = [] \<longleftrightarrow> sort (remdups (List.map_filter key df)) = []"
    by (simp add: groupby_sum_def)
  also have "\<dots> \<longleftrightarrow> set (sort (remdups (List.map_filter key df))) = {}"
    by (simp only: set_empty)
  also have "\<dots> \<longleftrightarrow> (\<forall>r\<in>set df. key r = None)"
    by (simp only: group_keys_set) (auto simp: not_Some_eq [symmetric] simp del: not_Some_eq)
  finally show ?thesis .
qed

text \<open>The groups of distinct keys hold, each once, the rows that carry one of these keys.\<close>

lemma groups_of_distinct_keys:
  "distinct ks \<Longrightarrow>
   mset (concat (map (\<lambda>k. filter (\<lambda>r. key r = Some k) df) ks)) =
   filter_mset (\<lambda>r. key r \<in> Some ` set ks) (mset df)"
proof (induction ks)
  case Nil
  then show ?case by simp
next
  case (Cons k ks)
  then have IH: "mset (concat (map (\<lambda>k. filter (\<lambda>r. key r = Some k) df) ks)) =
      filter_mset (\<lambda>r. key r \<in> Some ` set ks) (mset df)"
    and fresh: "k \<notin> set ks" by simp_all
  have "filter_mset (\<lambda>r. key r = Some k) (mset df) +
          filter_mset (\<lambda>r. key r \<in> Some ` set ks) (mset df) =
        filter_mset (\<lambda>r. key r \<in> Some ` set (k # ks)) (mset df)"
    using fresh by (auto simp: multiset_eq_iff)
  then show ?case using IH by simp
qed

text \<open>When no key is null, the groups of the result hold every row of the frame once.\<close>

lemma groupby_sum_partition:
  assumes "\<forall>r\<in>set df. key r \<noteq> None"
  shows "mset (concat (map (\<lambda>(c, v). filter (\<lambda>r. key r = c) df) (groupby_sum key df))) = mset df"
proof -
  let ?ks = "sort (remdups (List.map_filter key df))"
  have "map (\<lambda>(c, v). filter (\<lambda>r. key r = c) df) (groupby_sum key df) =
        map (\<lambda>k. filter (\<lambda>r. key r = Some k) df) ?ks"
    by (simp add: groupby_sum_def comp_def)
  then have "mset (concat (map (\<lambda>(c, v). filter (\<lambda>r. key r = c) df) (groupby_sum key df))) =
        filter_mset (\<lambda>r. key r \<in> Some ` set ?ks) (mset df)"
    by (simp only: groups_of_distinct_keys [OF group_keys_distinct])
  also have "\<dots> = mset df"
  proof -
    have "key r \<in> Some ` set ?ks" if "r \<in># mset df" for r
    proof -
      from that assms obtain k where "key r = Some k" by auto
      with that show ?thesis by (simp only: group_keys_set) auto
    qed
    then show ?thesis by (simp add: filter_mset_eq_conv)
  qed
  finally show ?thesis .
qed

lemma set_sort_values_desc: "set (sort_values_desc xs) = set xs"
  by (simp add: sort_values_desc_def)

lemma length_sort_values_desc: "length (sort_values_desc xs) = length xs"
  by (simp add: sort_values_desc_def)

lemma sort_values_desc_sorted: "sorted_wrt (\<lambda>a b. snd b \<le> snd a) (sort_values_desc xs)"
proof -
  have "sorted (map (\<lambda>p. - snd p) (sort_values_desc xs))"
    unfolding sort_values_desc_def by (rule sorted_sort_key)
  then show ?thesis by (simp add: sorted_wrt_map)
qed

lemma head_desc:
  "length (head 10 (sort_values_desc xs)) \<le> 10 \<and>
   sorted_wrt (\<lambda>a b. snd b \<le> snd a) (head 10 (sort_values_desc xs))"
  unfolding head_def by (simp add: sorted_wrt_take sort_values_desc_sorted)

text \<open>
  Claim C5, as amended. For every filtered frame in which no row has a null category and
  no row has a null product name, the by-category aggregation (line 198) and the
  by-product aggregation (line 171) each put every row of the frame in exactly one group,
  and the amount of a group is the sum of the amounts of its rows; the KPI total revenue
  (line 140) is the sum of the amounts of all rows. So the by-category amounts, the
  by-product amounts and the total revenue all add up the same amounts, each row's
  amount counted once. That the three totals are the same number is not stated: the code
  adds float64 values in three different orders, and the results can differ in the last
  digits (the amounts 0.1, 0.2, 0.3 give 0.6 one way and 0.6000000000000001 another).
\<close>

theorem aggregations_count_each_row_once:
  assumes "\<forall>r\<in>set df. CATEGORY r \<noteq> None \<and> PRODUCT_NAME r \<noteq> None"
  shows "mset (concat (map (\<lambda>(c, v). filter (\<lambda>r. CATEGORY r = c) df) (category_sales df))) =
           mset df \<and>
         (\<forall>(c, v) \<in> set (category_sales df).
             v = sum_list (map TOTAL_VENDA (filter (\<lambda>r. CATEGORY r = c) df))) \<and>
         mset (concat (map (\<lambda>(p, v). filter (\<lambda>r. PRODUCT_NAME r = p) df)
                           (product_sales_agg df))) = mset df \<and>
         (\<forall>(p, v) \<in> set (product_sales_agg df).
             v = sum_list (map TOTAL_VENDA (filter (\<lambda>r. PRODUCT_NAME r = p) df))) \<and>
         total_revenue df = sum_list (map TOTAL_VENDA df)"
proof -
  have cat: "\<forall>r\<in>set df. CATEGORY r \<noteq> None" and prod: "\<forall>r\<in>set df. PRODUCT_NAME r \<noteq> None"
    using assms by simp_all
  show ?thesis
    unfolding category_sales_def product_sales_agg_def total_revenue_def
    using groupby_sum_partition [OF cat] groupby_sum_partition [OF prod]
    by (auto dest: groupby_sum_entry)
qed

theorem aggregations_count_each_row_once_witness:
  "None \<notin> set (map CATEGORY sales_example) \<and> None \<notin> set (map PRODUCT_NAME sales_example) \<and>
   category_sales sales_example = [(Some ''Books'', 300), (Some ''Toys'', 700)] \<and>
   product_sales_agg sales_example =
     [(Some ''P1'', 600), (Some ''P2'', 300), (Some ''P3'', 100)] \<and>
   mset (concat (map (\<lambda>(c, v). filter (\<lambda>r. CATEGORY r = c) sales_example)
                     (category_sales sales_example))) = mset sales_example \<and>
   mset (concat (map (\<lambda>(p, v). filter (\<lambda>r. PRODUCT_NAME r = p) sales_example)
                     (product_sales_agg sales_example))) = mset sales_example"
proof -
  have cols: "None \<notin> set (map CATEGORY sales_example)"
    "None \<notin> set (map PRODUCT_NAME sales_example)"
    by (simp_all add: sales_example_def sale_def)
  have h: "\<forall>r\<in>set sales_example. CATEGORY r \<noteq> None \<and> PRODUCT_NAME r \<noteq> None"
    by (simp add: sales_example_def sale_def)
  have cat: "category_sales sales_example = [(Some ''Books'', 300), (Some ''Toys'', 700)]"
    by (simp add: category_sales_def groupby_sum_def List.map_filter_def
        sales_example_def sale_def)
  have prod: "product_sales_agg sales_example =
      [(Some ''P1'', 600), (Some ''P2'', 300), (Some ''P3'', 100)]"
    by (simp add: product_sales_agg_def groupby_sum_def List.map_filter_def
        sales_example_def sale_def)
  note once = aggregations_count_each_row_once [OF h]
  have by_cat: "mset (concat (map (\<lambda>(c, v). filter (\<lambda>r. CATEGORY r = c) sales_example)
                     (category_sales sales_example))) = mset sales_example"
    using once by (rule conjunct1)
  have by_prod: "mset (concat (map (\<lambda>(p, v). filter (\<lambda>r. PRODUCT_NAME r = p) sales_example)
                     (product_sales_agg sales_example))) = mset sales_example"
    using once by (elim conjE)
  from cols cat prod by_cat by_prod show ?thesis by (intro conjI)
qed

text \<open>
  The claim as first stated (for every filtered frame, the three totals are equal) fails
  on a single sale whose product has no category: no group holds the row, the by-category
  amounts add up to 0, the by-product amounts and the total revenue are 45.
\<close>

theorem aggregations_sum_counterexample:
  "sum_list (map snd (category_sales unmatched_product_sale)) = 0 \<and>
   sum_list (map snd (product_sales_agg unmatched_product_sale)) = 45 \<and>
   total_revenue unmatched_product_sale = 45"
  by (simp add: category_sales_def product_sales_agg_def total_revenue_def groupby_sum_def
      List.map_filter_def unmatched_product_sale_def sale_def)

text \<open>
  Claim C6. For every filtered frame, each ranked pipeline (by product, by salesperson, by
  store city) returns at most 10 rows, and along the returned rows the summed amount never
  increases: it goes strictly down except between rows of equal amount.
\<close>

theorem ranked_pipelines_top10_descending:
  "length (product_sales df) \<le> 10 \<and>
   sorted_wrt (\<lambda>a b. snd b \<le> snd a) (product_sales df) \<and>
   length (top_salespersons df) \<le> 10 \<and>
   sorted_wrt (\<lambda>a b. snd b \<le> snd a) (top_salespersons df) \<and>
   length (top_stores df) \<le> 10 \<and>
   sorted_wrt (\<lambda>a b. snd b \<le> snd a) (top_stores df)"
  unfolding product_sales_def product_sales_agg_def top_salespersons_def top_stores_def
  by (intro conjI head_desc [THEN conjunct1] head_desc [THEN conjunct2])

theorem ranked_pipelines_top10_descending_witness:
  "length (groupby_sum PRODUCT_NAME eleven_products) = 11 \<and>
   map snd (product_sales eleven_products) = [11, 10, 9, 8, 7, 6, 5, 4, 3, 2] \<and>
   length (product_sales eleven_products) \<le> 10 \<and>
   sorted_wrt (\<lambda>a b. snd b \<le> snd a) (product_sales eleven_products)"
proof -
  have "length (groupby_sum PRODUCT_NAME eleven_products) = 11"
    by code_simp
  moreover have "map snd (product_sales eleven_products) = [11, 10, 9, 8, 7, 6, 5, 4, 3, 2]"
    by code_simp
  ultimately show ?thesis
    using ranked_pipelines_top10_descending [of eleven_products] by simp
qed

text \<open>
  Claim C7, as amended. For every frame, with or without rows whose category is null, the
  by-category aggregation returns a result (the function has no failing branch), and a
  null category forms no group: the keys of the result are exactly the distinct non-null
  categories of the frame, each once, and each carries the sum of the amounts of the rows
  of that category. The rows whose category is null are left out.
\<close>

theorem category_groups_skip_null:
  "None \<notin> fst ` set (category_sales df) \<and>
   fst ` set (category_sales df) = {c \<in> CATEGORY ` set df. c \<noteq> None} \<and>
   distinct (map fst (category_sales df)) \<and>
   (\<forall>(c, v) \<in> set (category_sales df).
       v = sum_list (map TOTAL_VENDA (filter (\<lambda>r. CATEGORY r = c) df)))"
  unfolding category_sales_def
  by (auto simp: groupby_sum_fst_set groupby_sum_distinct_keys dest: groupby_sum_entry)

theorem category_groups_skip_null_witness:
  "category_sales mixed_category_sales = [(Some ''Toys'', 60)] \<and>
   None \<notin> fst ` set (category_sales mixed_category_sales) \<and>
   None \<in> CATEGORY ` set mixed_category_sales"
proof -
  have "category_sales mixed_category_sales = [(Some ''Toys'', 60)]"
    by (simp add: category_sales_def groupby_sum_def List.map_filter_def
        mixed_category_sales_def sale_def)
  moreover have "None \<in> CATEGORY ` set mixed_category_sales"
    by (simp add: mixed_category_sales_def sale_def)
  ultimately show ?thesis
    using category_groups_skip_null [of mixed_category_sales] by simp
qed

text \<open>
  The claim as first stated fails on a frame whose two rows both have a null category:
  the by-category result has no group at all, so none for the null.
\<close>

theorem null_category_group_counterexample:
  "CATEGORY ` set null_category_sales = {None} \<and> category_sales null_category_sales = []"
  by (simp add: category_sales_def groupby_sum_def List.map_filter_def
      null_category_sales_def sale_def)

section \<open>The Pareto analysis\<close>

lemma sum_list_pos: "xs \<noteq> [] \<Longrightarrow> \<forall>x\<in>set xs. (0::rat) < x \<Longrightarrow> 0 < sum_list xs"
proof (induction xs)
  case Nil
  then show ?case by simp
next
  case (Cons x xs)
  show ?case
  proof (cases "xs = []")
    case True
    then show ?thesis using Cons.prems by simp
  next
    case False
    then have "0 < sum_list xs" using Cons by simp
    then show ?thesis using Cons.prems by (simp add: add_pos_pos)
  qed
qed

lemma length_cumsum_from: "length (cumsum_from a xs) = length xs"
  by (induction xs arbitrary: a) simp_all

text \<open>The columns of the Pareto frame, one at a time.\<close>

lemma pareto_names:
  "map P_PRODUCT_NAME (pareto_products df) =
   map fst (sort_values_desc (groupby_sum PRODUCT_NAME df))"
  unfolding pareto_products_def Let_def
  by (intro nth_equalityI) simp_all

lemma pareto_percentages:
  "map CUMULATIVE_PERCENTAGE (pareto_products df) =
   map (\<lambda>c. fmul100 (fdiv c (sum_list (map snd (sort_values_desc (groupby_sum PRODUCT_NAME df))))))
       (cumsum (map snd (sort_values_desc (groupby_sum PRODUCT_NAME df))))"
  unfolding pareto_products_def Let_def cumsum_def
  by (intro nth_equalityI) (simp_all add: length_cumsum_from)

lemma length_pareto:
  "length (pareto_products df) = length (groupby_sum PRODUCT_NAME df)"
  by (simp add: pareto_products_def Let_def length_sort_values_desc)

text \<open>Running sums of non-negative amounts never go down, and end at the total.\<close>

lemma cumsum_from_ge: "\<forall>x\<in>set xs. 0 \<le> x \<Longrightarrow> c \<in> set (cumsum_from a xs) \<Longrightarrow> a \<le> c"
proof (induction xs arbitrary: a)
  case Nil
  then show ?case by simp
next
  case (Cons x xs)
  from Cons.prems(1) have x: "0 \<le> x" and xs: "\<forall>y\<in>set xs. 0 \<le> y" by simp_all
  from Cons.prems(2) consider "c = a + x" | "c \<in> set (cumsum_from (a + x) xs)" by auto
  then show ?case
  proof cases
    case 1
    then show ?thesis using x by simp
  next
    case 2
    then have "a + x \<le> c" by (rule Cons.IH [OF xs])
    then show ?thesis using x by simp
  qed
qed

lemma cumsum_from_sorted:
  "\<forall>x\<in>set xs. 0 \<le> x \<Longrightarrow> 0 \<le> a \<Longrightarrow>
   sorted_wrt (\<lambda>c c'. 0 \<le> c \<and> c \<le> c') (cumsum_from a xs)"
proof (induction xs arbitrary: a)
  case Nil
  then show ?case by simp
next
  case (Cons x xs)
  from Cons.prems(1) have x: "0 \<le> x" and xs: "\<forall>y\<in>set xs. 0 \<le> y" by simp_all
  have ax: "0 \<le> a + x" using x Cons.prems(2) by simp
  have "sorted_wrt (\<lambda>c c'. 0 \<le> c \<and> c \<le> c') (cumsum_from (a + x) xs)"
    by (rule Cons.IH [OF xs ax])
  moreover have "\<forall>c\<in>set (cumsum_from (a + x) xs). a + x \<le> c"
    using cumsum_from_ge [OF xs] by blast
  ultimately show ?case using ax by simp
qed

lemma last_cumsum_from: "xs \<noteq> [] \<Longrightarrow> last (cumsum_from a xs) = a + sum_list xs"
proof (induction xs arbitrary: a)
  case Nil
  then show ?case by simp
next
  case (Cons x xs)
  show ?case
  proof (cases "xs = []")
    case True
    then show ?thesis by simp
  next
    case False
    then have "cumsum_from (a + x) xs \<noteq> []" by (cases xs) simp_all
    then show ?thesis using Cons.IH [OF False, of "a + x"] by (simp add: add.assoc)
  qed
qed

text \<open>A mask that, once false, stays false along the list selects a prefix.\<close>

lemma filter_is_prefix:
  "sorted_wrt (\<lambda>a b. P b \<longrightarrow> P a) xs \<Longrightarrow> filter P xs = takeWhile P xs"
proof (induction xs)
  case Nil
  then show ?case by simp
next
  case (Cons x xs)
  then have later: "\<forall>y\<in>set xs. P y \<longrightarrow> P x" and rest: "sorted_wrt (\<lambda>a b. P b \<longrightarrow> P a) xs"
    by simp_all
  show ?case
  proof (cases "P x")
    case True
    then show ?thesis using Cons.IH [OF rest] by simp
  next
    case False
    with later have "\<forall>y\<in>set xs. \<not> P y" by blast
    then have "filter P xs = []" by (simp add: filter_empty_conv)
    then show ?thesis using False by simp
  qed
qed

lemma percentage_le_80_mono:
  assumes "0 \<le> tot" "0 \<le> c" "c \<le> c'" "fle (fmul100 (fdiv c' tot)) (Fin 80)"
  shows "fle (fmul100 (fdiv c tot)) (Fin 80)"
proof (cases "tot = 0")
  case True
  then show ?thesis using assms by (auto simp: fdiv_def split: if_splits)
next
  case False
  with assms(1) have pos: "0 < tot" by simp
  from assms(4) False have "c' / tot * 100 \<le> 80" by (simp add: fdiv_def)
  moreover have "c / tot * 100 \<le> c' / tot * 100"
    using assms(3) pos by (simp add: divide_right_mono)
  ultimately show ?thesis using False by (simp add: fdiv_def)
qed

text \<open>With amounts that are pairwise different, the descending order is determined.\<close>

lemma filter_same_key:
  "distinct xs \<Longrightarrow> inj_on f (set xs) \<Longrightarrow> k \<in> set xs \<Longrightarrow> filter (\<lambda>x. f k = f x) xs = [k]"
proof (induction xs)
  case Nil
  then show ?case by simp
next
  case (Cons x xs)
  show ?case
  proof (cases "x = k")
    case True
    with Cons.prems have "\<forall>y\<in>set xs. f k \<noteq> f y" by (auto simp: inj_on_def)
    then have "filter (\<lambda>x. f k = f x) xs = []" by (simp add: filter_empty_conv)
    then show ?thesis using True by simp
  next
    case False
    with Cons.prems have "f k \<noteq> f x" "k \<in> set xs" "distinct xs" "inj_on f (set xs)"
      by (auto simp: inj_on_def)
    then show ?thesis using Cons.IH by simp
  qed
qed

lemma sort_values_desc_unique:
  assumes dist: "distinct xs" and inj: "inj_on snd (set xs)"
    and perm: "set ys = set xs" "distinct ys"
    and desc: "sorted_wrt (\<lambda>a b. snd b \<le> snd a) ys"
  shows "sort_values_desc xs = ys"
  unfolding sort_values_desc_def
proof (rule properties_for_sort_key)
  show "mset ys = mset xs"
    using perm dist by (simp add: set_eq_iff_mset_eq_distinct [symmetric])
  have inj': "inj_on (\<lambda>p. - snd p) (set xs)"
    using inj by (auto simp: inj_on_def)
  show "filter (\<lambda>x. - snd k = - snd x) ys = filter (\<lambda>x. - snd k = - snd x) xs"
    if "k \<in> set ys" for k
    using filter_same_key [OF dist inj', of k] filter_same_key [OF perm(2), of "\<lambda>p. - snd p" k]
      inj' that perm(1) by simp
  show "sorted (map (\<lambda>p. - snd p) ys)"
    using desc by (simp add: sorted_wrt_map)
qed

lemma pareto_of_ranked:
  "sort_values_desc (groupby_sum PRODUCT_NAME df) = [(p1, v1), (p2, v2), (p3, v3)] \<Longrightarrow>
   pareto_products df =
     [\<lparr>P_PRODUCT_NAME = p1, P_TOTAL_VENDA = v1, CUMULATIVE_SALES = v1,
        CUMULATIVE_PERCENTAGE = fmul100 (fdiv v1 (v1 + v2 + v3)), PRODUCT_NUMBER = 1\<rparr>,
      \<lparr>P_PRODUCT_NAME = p2, P_TOTAL_VENDA = v2, CUMULATIVE_SALES = v1 + v2,
        CUMULATIVE_PERCENTAGE = fmul100 (fdiv (v1 + v2) (v1 + v2 + v3)), PRODUCT_NUMBER = 2\<rparr>,
      \<lparr>P_PRODUCT_NAME = p3, P_TOTAL_VENDA = v3, CUMULATIVE_SALES = v1 + v2 + v3,
        CUMULATIVE_PERCENTAGE = fmul100 (fdiv (v1 + v2 + v3) (v1 + v2 + v3)),
        PRODUCT_NUMBER = 3\<rparr>]"
  by (simp add: pareto_products_def Let_def cumsum_def upt_rec [of 0] upt_rec [of 1]
      upt_rec [of 2] add.assoc)

text \<open>
  Claim C1, as amended. For a frame with exactly three products whose summed revenues are
  600, 300 and 100, the Pareto frame lists them in this order with the ranks 1, 2, 3 and
  the cumulative percentages 60, 90, 100, and the count reported at line 431, the number
  of rows whose cumulative percentage is at most 80, equals 1 (only the first row, at
  60 percent, is within 80).
\<close>

theorem pareto_three_products:
  assumes "set (groupby_sum PRODUCT_NAME df) = {(p1, 600), (p2, 300), (p3, 100)}"
  shows "map P_PRODUCT_NAME (pareto_products df) = [p1, p2, p3] \<and>
         map PRODUCT_NUMBER (pareto_products df) = [1, 2, 3] \<and>
         map CUMULATIVE_PERCENTAGE (pareto_products df) = [Fin 60, Fin 90, Fin 100] \<and>
         length (products_80 df) = 1"
proof -
  let ?xs = "groupby_sum PRODUCT_NAME df"
  have dist: "distinct ?xs"
    using groupby_sum_distinct_keys [of PRODUCT_NAME df] by (simp add: distinct_map)
  have inj: "inj_on snd (set ?xs)"
    unfolding assms by (simp add: inj_on_def)
  have ranked: "sort_values_desc ?xs = [(p1, 600), (p2, 300), (p3, 100)]"
    by (rule sort_values_desc_unique [OF dist inj]) (simp_all add: assms)
  show ?thesis
    by (simp add: pareto_of_ranked [OF ranked] products_80_def fdiv_def)
qed

theorem pareto_three_products_witness:
  "set (groupby_sum PRODUCT_NAME sales_example) =
     {(Some ''P1'', 600), (Some ''P2'', 300), (Some ''P3'', 100)} \<and>
   map P_PRODUCT_NAME (pareto_products sales_example) = [Some ''P1'', Some ''P2'', Some ''P3''] \<and>
   map PRODUCT_NUMBER (pareto_products sales_example) = [1, 2, 3] \<and>
   map CUMULATIVE_PERCENTAGE (pareto_products sales_example) = [Fin 60, Fin 90, Fin 100] \<and>
   length (products_80 sales_example) = 1"
proof
  show h: "set (groupby_sum PRODUCT_NAME sales_example) =
      {(Some ''P1'', 600), (Some ''P2'', 300), (Some ''P3'', 100)}"
    by (simp add: groupby_sum_def List.map_filter_def sales_example_def sale_def)
  show "map P_PRODUCT_NAME (pareto_products sales_example) = [Some ''P1'', Some ''P2'', Some ''P3''] \<and>
   map PRODUCT_NUMBER (pareto_products sales_example) = [1, 2, 3] \<and>
   map CUMULATIVE_PERCENTAGE (pareto_products sales_example) = [Fin 60, Fin 90, Fin 100] \<and>
   length (products_80 sales_example) = 1"
    using h by (rule pareto_three_products)
qed

text \<open>
  The claim as first stated gives the count 2. On the frame with one sale per product
  (600, 300, 100) the order and the percentages are as stated, but the mask
  \<open>CUMULATIVE_PERCENTAGE <= 80\<close> keeps one row only, and the message of line 431 is built
  from the count 1 and the share 1/3.
\<close>

theorem pareto_three_products_count_counterexample:
  "map P_PRODUCT_NAME (pareto_products three_products) = [Some ''P1'', Some ''P2'', Some ''P3''] \<and>
   map CUMULATIVE_PERCENTAGE (pareto_products three_products) = [Fin 60, Fin 90, Fin 100] \<and>
   length (products_80 three_products) \<noteq> 2 \<and>
   insight three_products = Inr (1, 100 / 3)"
  by code_simp

text \<open>
  Claim C2, as amended. For the empty filtered frame the KPI total revenue is 0, the
  transaction count is 0, the average ticket is \<open>nan\<close> (the mean of an empty column;
  nothing is raised), and the Pareto frame of lines 390-400 is empty, computed without a
  division fault.
\<close>

theorem empty_dataset_kpis_and_pareto:
  "total_revenue [] = 0 \<and> total_transactions [] = 0 \<and> avg_ticket [] = NaN \<and>
   pareto_products [] = []"
  by (simp add: total_revenue_def total_transactions_def avg_ticket_def mean_def
      pareto_products_def groupby_sum_def sort_values_desc_def List.map_filter_def)

text \<open>
  The claim as first stated asks for an average ticket that is not \<open>nan\<close> and for no
  division-by-zero fault. On the empty frame the average ticket is \<open>nan\<close>, and the
  quotient \<open>len(products_80)/len(pareto_products)\<close> of line 431 raises
  \<open>ZeroDivisionError\<close>.
\<close>

theorem empty_dataset_counterexample:
  "avg_ticket [] = NaN \<and> insight [] = Inl ZeroDivisionError"
  by (simp add: avg_ticket_def mean_def insight_def pareto_products_def groupby_sum_def
      sort_values_desc_def List.map_filter_def)

text \<open>
  Claim C4, as amended. For every filtered frame that has at least one row with a
  non-null product name and in which every product's summed revenue is positive, the
  cumulative percentages of the Pareto frame never decrease along the ranks, and the last
  one equals 100 (exactly, in the exact arithmetic of the model, hence within any
  tolerance).
\<close>

theorem pareto_percentage_monotone_to_100:
  assumes some: "\<exists>r\<in>set df. PRODUCT_NAME r \<noteq> None"
    and pos: "\<forall>(p, v) \<in> set (groupby_sum PRODUCT_NAME df). 0 < v"
  shows "sorted_wrt fle (map CUMULATIVE_PERCENTAGE (pareto_products df)) \<and>
         pareto_products df \<noteq> [] \<and>
         last (map CUMULATIVE_PERCENTAGE (pareto_products df)) = Fin 100"
proof -
  let ?sales = "map snd (sort_values_desc (groupby_sum PRODUCT_NAME df))"
  let ?tot = "sum_list ?sales"
  let ?g = "\<lambda>c. fmul100 (fdiv c ?tot)"
  have ne: "groupby_sum PRODUCT_NAME df \<noteq> []"
    using some by (simp add: groupby_sum_empty_iff)
  then have sales_ne: "?sales \<noteq> []"
    using length_sort_values_desc [of "groupby_sum PRODUCT_NAME df"] by auto
  have sales_pos: "\<forall>x\<in>set ?sales. 0 < x"
    using pos by (auto simp: set_sort_values_desc)
  then have sales: "\<forall>x\<in>set ?sales. 0 \<le> x" by (auto intro: less_imp_le)
  have tot: "0 < ?tot"
    using sales_ne sales_pos by (rule sum_list_pos)
  have g: "?g c = Fin (c / ?tot * 100)" for c
    using tot by (simp add: fdiv_def)
  have "sorted_wrt (\<lambda>c c'. 0 \<le> c \<and> c \<le> c') (cumsum ?sales)"
    unfolding cumsum_def by (rule cumsum_from_sorted [OF sales]) simp
  then have "sorted_wrt (\<lambda>c c'. fle (?g c) (?g c')) (cumsum ?sales)"
    by (rule sorted_wrt_mono_rel [rotated]) (use tot in \<open>auto simp: g divide_right_mono\<close>)
  then have mono: "sorted_wrt fle (map CUMULATIVE_PERCENTAGE (pareto_products df))"
    by (simp only: pareto_percentages sorted_wrt_map)
  have rows: "pareto_products df \<noteq> []"
    using ne length_pareto [of df] by auto
  have cum_ne: "cumsum ?sales \<noteq> []"
    using sales_ne length_cumsum_from [of 0 ?sales] by (auto simp: cumsum_def)
  have "last (map CUMULATIVE_PERCENTAGE (pareto_products df)) = ?g (last (cumsum ?sales))"
    by (simp only: pareto_percentages last_map [OF cum_ne])
  also have "\<dots> = ?g ?tot"
    using last_cumsum_from [OF sales_ne, of 0] by (simp add: cumsum_def)
  also have "\<dots> = Fin 100" using tot by (simp add: g)
  finally show ?thesis using mono rows by simp
qed

theorem pareto_percentage_monotone_to_100_witness:
  "PRODUCT_NAME (hd sales_example) = Some ''P1'' \<and>
   groupby_sum PRODUCT_NAME sales_example =
     [(Some ''P1'', 600), (Some ''P2'', 300), (Some ''P3'', 100)] \<and>
   sorted_wrt fle (map CUMULATIVE_PERCENTAGE (pareto_products sales_example)) \<and>
   pareto_products sales_example \<noteq> [] \<and>
   last (map CUMULATIVE_PERCENTAGE (pareto_products sales_example)) = Fin 100"
proof -
  have first: "PRODUCT_NAME (hd sales_example) = Some ''P1''"
    by (simp add: sales_example_def sale_def)
  have sums: "groupby_sum PRODUCT_NAME sales_example =
      [(Some ''P1'', 600), (Some ''P2'', 300), (Some ''P3'', 100)]"
    by (simp add: groupby_sum_def List.map_filter_def sales_example_def sale_def)
  have some: "\<exists>r\<in>set sales_example. PRODUCT_NAME r \<noteq> None"
    by (simp add: sales_example_def sale_def)
  have pos: "\<forall>(p, v) \<in> set (groupby_sum PRODUCT_NAME sales_example). 0 < v"
    by (simp add: sums)
  show ?thesis
    using first sums pareto_percentage_monotone_to_100 [OF some pos] by (intro conjI) simp_all
qed

text \<open>
  The claim as first stated takes any non-empty filtered frame. A non-empty frame whose
  only row has a null product name has no product at all (so every product's sum is
  positive), its Pareto frame is empty, and the percentage column has no last element.
\<close>

theorem pareto_null_products_counterexample:
  "null_product_sales \<noteq> [] \<and> groupby_sum PRODUCT_NAME null_product_sales = [] \<and>
   map CUMULATIVE_PERCENTAGE (pareto_products null_product_sales) = []"
  by (simp add: pareto_products_def groupby_sum_def sort_values_desc_def List.map_filter_def
      null_product_sales_def sale_def)

text \<open>
  Claim C10. For every filtered frame in which every product's summed revenue is
  non-negative, the rows that the mask of line 430 selects from the whole Pareto frame
  (cumulative percentage at most 80) are a prefix of the rank order, so the count of line
  431 equals the number of leading ranks whose cumulative percentage is at most 80.
\<close>

theorem products_80_is_leading_prefix:
  assumes nonneg: "\<forall>(p, v) \<in> set (groupby_sum PRODUCT_NAME df). 0 \<le> v"
  shows "products_80 df =
           takeWhile (\<lambda>p. fle (CUMULATIVE_PERCENTAGE p) (Fin 80)) (pareto_products df) \<and>
         length (products_80 df) = count_at_80_spec df"
proof -
  let ?sales = "map snd (sort_values_desc (groupby_sum PRODUCT_NAME df))"
  let ?tot = "sum_list ?sales"
  let ?Q = "\<lambda>v. fle v (Fin 80)"
  have sales: "\<forall>x\<in>set ?sales. 0 \<le> x"
    using nonneg by (auto simp: set_sort_values_desc)
  then have tot: "0 \<le> ?tot" by (intro sum_list_nonneg) blast
  have "sorted_wrt (\<lambda>c c'. 0 \<le> c \<and> c \<le> c') (cumsum ?sales)"
    unfolding cumsum_def by (rule cumsum_from_sorted [OF sales]) simp
  then have "sorted_wrt (\<lambda>c c'. ?Q (fmul100 (fdiv c' ?tot)) \<longrightarrow> ?Q (fmul100 (fdiv c ?tot)))
               (cumsum ?sales)"
    by (rule sorted_wrt_mono_rel [rotated]) (auto intro: percentage_le_80_mono [OF tot])
  then have "sorted_wrt (\<lambda>u v. ?Q v \<longrightarrow> ?Q u) (map CUMULATIVE_PERCENTAGE (pareto_products df))"
    by (simp only: pareto_percentages sorted_wrt_map)
  then have "sorted_wrt (\<lambda>a b. ?Q (CUMULATIVE_PERCENTAGE b) \<longrightarrow> ?Q (CUMULATIVE_PERCENTAGE a))
               (pareto_products df)"
    by (simp only: sorted_wrt_map)
  then have "filter (\<lambda>p. ?Q (CUMULATIVE_PERCENTAGE p)) (pareto_products df) =
             takeWhile (\<lambda>p. ?Q (CUMULATIVE_PERCENTAGE p)) (pareto_products df)"
    by (rule filter_is_prefix)
  then show ?thesis by (simp add: products_80_def count_at_80_spec_def)
qed

theorem products_80_is_leading_prefix_witness:
  "groupby_sum PRODUCT_NAME sales_example =
     [(Some ''P1'', 600), (Some ''P2'', 300), (Some ''P3'', 100)] \<and>
   count_at_80_spec sales_example = 1 \<and>
   length (products_80 sales_example) = count_at_80_spec sales_example"
proof -
  have sums: "groupby_sum PRODUCT_NAME sales_example =
      [(Some ''P1'', 600), (Some ''P2'', 300), (Some ''P3'', 100)]"
    by (simp add: groupby_sum_def List.map_filter_def sales_example_def sale_def)
  have nonneg: "\<forall>(p, v) \<in> set (groupby_sum PRODUCT_NAME sales_example). 0 \<le> v"
    by (simp add: sums)
  have count: "count_at_80_spec sales_example = 1"
    by code_simp
  have "length (products_80 sales_example) = count_at_80_spec sales_example"
    using products_80_is_leading_prefix [OF nonneg] by (rule conjunct2)
  with sums count show ?thesis by (intro conjI)
qed

end
